theory Spec2Isabelle
  imports Main "HOL-Library.Finite_Map"
begin

section \<open>Mapping core\<close>

text \<open>
  The note arithmetic of \<^verbatim>\<open>koala_ableton_midi_converter.py\<close>. Python integers are
  unbounded, so notes are \<open>int\<close>; Python's \<open>%\<close> with a positive divisor is the
  floored remainder, which is \<open>mod\<close> on \<open>int\<close>.
\<close>

definition OCTAVE_SHIFT :: int where
  "OCTAVE_SHIFT = 36"

definition remap_within_32 :: "int \<Rightarrow> int" where
  "remap_within_32 w =
     (if 0 \<le> w \<and> w \<le> 3 then w + 12
      else if 12 \<le> w \<and> w \<le> 15 then w - 12
      else if 4 \<le> w \<and> w \<le> 7 then w + 4
      else if 8 \<le> w \<and> w \<le> 11 then w - 4
      else if 16 \<le> w \<and> w \<le> 19 then w + 12
      else if 28 \<le> w \<and> w \<le> 31 then w - 12
      else if 20 \<le> w \<and> w \<le> 23 then w + 4
      else if 24 \<le> w \<and> w \<le> 27 then w - 4
      else w)"

definition remap_note :: "int \<Rightarrow> int \<times> bool" where
  "remap_note note =
     (if note < 0 \<or> note > 127 then (note, False)
      else
        let base = note - (note mod 32);
            w = note mod 32;
            new_note = base + remap_within_32 w
        in (new_note, new_note \<noteq> note))"

definition clamp_midi :: "int \<Rightarrow> int \<times> bool" where
  "clamp_midi n =
     (if n < 0 then (0, True)
      else if n > 127 then (127, True)
      else (n, False))"

text \<open>The result triple is \<open>(note, changed, clamped)\<close>.\<close>

definition forward_koala_to_ableton :: "int \<Rightarrow> int \<times> bool \<times> bool" where
  "forward_koala_to_ableton note =
     (let (r, changed) = remap_note note in
      if changed then
        let r2 = r + OCTAVE_SHIFT;
            (r2', did_clamp) = clamp_midi r2
        in (r2', True, did_clamp)
      else (note, False, False))"

text \<open>
  The second candidate \<open>n2\<close> is \<open>None\<close> in the source until the unshifted note is
  found to lie in the MIDI range; \<open>ok2\<close> can only hold when it has been set, so
  \<open>the n2\<close> is read only where \<open>n2\<close> is \<open>Some\<close>.
\<close>

definition inverse_ableton_to_koala :: "int \<Rightarrow> int \<times> bool" where
  "inverse_ableton_to_koala note =
     (let n1 = note;
          n2 = (if 0 \<le> note - OCTAVE_SHIFT \<and> note - OCTAVE_SHIFT \<le> 127
                then Some (fst (remap_note (note - OCTAVE_SHIFT)))
                else None);
          f1 = fst (forward_koala_to_ableton n1);
          ok1 = (f1 = note);
          ok2 = (case n2 of
                   None \<Rightarrow> False
                 | Some m \<Rightarrow> fst (forward_koala_to_ableton m) = note)
      in if ok2 \<and> ok1 then (the n2, True)
         else if ok2 then (the n2, True)
         else if ok1 then (n1, False)
         else (n1, False))"

section \<open>MIDI conversion\<close>

text \<open>
  A message of the MIDI library, as far as the program reads it: its type tag, the
  fields of a note message, its delta time, and whatever else a message of another
  type carries (\<open>payload\<close>). The field \<open>msg_note\<close> is the attribute \<open>note\<close> of the
  source.
\<close>

record message =
  msg_type :: string
  channel :: int
  msg_note :: int
  velocity :: int
  time :: int
  payload :: "int list"

text \<open>
  The exceptions the model distinguishes. \<open>ValueError\<close> carries its message;
  \<open>FileNotFoundError\<close> the path that is missing; \<open>CodecError\<close> the message with
  which the MIDI library rejects a file it cannot parse.
\<close>

datatype error = ValueError string | FileNotFoundError string | CodecError string

text \<open>
  The body of the inner loop of \<open>convert_midi\<close>, on one message and the counters
  \<open>(total, changed, clamped)\<close>. The note written back is always in [0,127] (forward
  clamps, and inverse only reports a change for a remapped note of the range), so the
  library's range check on assignment never fires.
\<close>

definition convert_msg ::
  "string \<Rightarrow> message \<Rightarrow> nat \<times> nat \<times> nat \<Rightarrow> error + (message \<times> nat \<times> nat \<times> nat)" where
  "convert_msg mode msg counts =
     (let (total, changed, clamped) = counts in
      if msg_type msg \<in> set [''note_on'', ''note_off''] then
        let total' = total + 1;
            old = msg_note msg
        in if mode = ''K2A'' then
             let (new, did_change, did_clamp) = forward_koala_to_ableton old;
                 (msg', changed') =
                   (if did_change then (msg\<lparr>msg_note := new\<rparr>, changed + 1) else (msg, changed));
                 clamped' = (if did_clamp then clamped + 1 else clamped)
             in Inr (msg', total', changed', clamped')
           else if mode = ''A2K'' then
             let (new, did_change) = inverse_ableton_to_koala old;
                 (msg', changed') =
                   (if did_change then (msg\<lparr>msg_note := new\<rparr>, changed + 1) else (msg, changed))
             in Inr (msg', total', changed', clamped)
           else Inl (ValueError (''Unknown mode: '' @ mode))
      else Inr (msg, total, changed, clamped))"

fun convert_track ::
  "string \<Rightarrow> message list \<Rightarrow> nat \<times> nat \<times> nat \<Rightarrow> error + (message list \<times> nat \<times> nat \<times> nat)" where
  "convert_track mode [] counts = Inr ([], counts)"
| "convert_track mode (msg # msgs) counts =
     (case convert_msg mode msg counts of
        Inl e \<Rightarrow> Inl e
      | Inr (msg', counts') \<Rightarrow>
          (case convert_track mode msgs counts' of
             Inl e \<Rightarrow> Inl e
           | Inr (msgs', counts'') \<Rightarrow> Inr (msg' # msgs', counts'')))"

fun convert_tracks ::
  "string \<Rightarrow> message list list \<Rightarrow> nat \<times> nat \<times> nat \<Rightarrow>
     error + (message list list \<times> nat \<times> nat \<times> nat)" where
  "convert_tracks mode [] counts = Inr ([], counts)"
| "convert_tracks mode (track # tracks) counts =
     (case convert_track mode track counts of
        Inl e \<Rightarrow> Inl e
      | Inr (track', counts') \<Rightarrow>
          (case convert_tracks mode tracks counts' of
             Inl e \<Rightarrow> Inl e
           | Inr (tracks', counts'') \<Rightarrow> Inr (track' # tracks', counts'')))"

text \<open>
  The file system is a finite map from paths to contents. A file is either MIDI data
  (its tracks, as the library parses and saves them without loss) or something the
  library cannot read. Writing is assumed to succeed.
\<close>

datatype file_content = MidiData "message list list" | Unreadable string

type_synonym path = string
type_synonym filesystem = "(path, file_content) fmap"

definition convert_midi ::
  "filesystem \<Rightarrow> path \<Rightarrow> path \<Rightarrow> string \<Rightarrow> filesystem \<times> (error + nat \<times> nat \<times> nat)" where
  "convert_midi fs in_path out_path mode =
     (case fmlookup fs in_path of
        None \<Rightarrow> (fs, Inl (FileNotFoundError in_path))
      | Some (Unreadable why) \<Rightarrow> (fs, Inl (CodecError why))
      | Some (MidiData tracks) \<Rightarrow>
          (case convert_tracks mode tracks (0, 0, 0) of
             Inl e \<Rightarrow> (fs, Inl e)
           | Inr (tracks', counts) \<Rightarrow> (fmupd out_path (MidiData tracks') fs, Inr counts)))"

section \<open>Paths, backups and overwriting\<close>

text \<open>
  Python's decimal rendering of a non-negative integer, as the f-string
  \<^verbatim>\<open>f".bak{i}"\<close> produces it.
\<close>

definition digit_char :: "nat \<Rightarrow> char" where
  "digit_char d = ''0123456789'' ! d"

fun str_nat :: "nat \<Rightarrow> string" where
  "str_nat n = (if n < 10 then [digit_char n] else str_nat (n div 10) @ [digit_char (n mod 10)])"

declare str_nat.simps [simp del]

text \<open>
  A path is the string form of a \<^verbatim>\<open>pathlib\<close> path, written with \<open>/\<close>; such a
  string does not end in a separator unless it names a root, which has no final
  component. The operations of \<^verbatim>\<open>pathlib\<close> the program uses: the
  final component, what precedes it (with its separator), the suffix (from the last
  dot of the final component, unless that dot is its first or last character), and the
  stem. \<open>with_name\<close> and \<open>with_suffix\<close> raise \<open>ValueError\<close> on a path whose final
  component is empty.
\<close>

definition path_name :: "path \<Rightarrow> string" where
  "path_name p = rev (takeWhile (\<lambda>c. c \<noteq> CHR ''/'') (rev p))"

definition path_parent :: "path \<Rightarrow> string" where
  "path_parent p = rev (dropWhile (\<lambda>c. c \<noteq> CHR ''/'') (rev p))"

definition path_suffix :: "path \<Rightarrow> string" where
  "path_suffix p =
     (let name = path_name p;
          ext = rev (takeWhile (\<lambda>c. c \<noteq> CHR ''.'') (rev name))
      in if CHR ''.'' \<in> set name \<and> ext \<noteq> [] \<and> length ext + 1 < length name
         then CHR ''.'' # ext else [])"

definition path_stem :: "path \<Rightarrow> string" where
  "path_stem p = (let name = path_name p in take (length name - length (path_suffix p)) name)"

definition with_name :: "path \<Rightarrow> string \<Rightarrow> error + path" where
  "with_name p name =
     (if path_name p = [] then Inl (ValueError (p @ '' has an empty name''))
      else Inr (path_parent p @ name))"

definition with_suffix :: "path \<Rightarrow> string \<Rightarrow> error + path" where
  "with_suffix p suffix =
     (if path_name p = [] then Inl (ValueError (p @ '' has an empty name''))
      else Inr (path_parent p @ path_stem p @ suffix))"

text \<open>\<open>Path.exists\<close> and \<open>Path.replace\<close> (a rename that overwrites its target).\<close>

definition path_exists :: "filesystem \<Rightarrow> path \<Rightarrow> bool" where
  "path_exists fs p = (fmlookup fs p \<noteq> None)"

definition path_replace :: "filesystem \<Rightarrow> path \<Rightarrow> path \<Rightarrow> filesystem \<times> (error + unit)" where
  "path_replace fs src dst =
     (case fmlookup fs src of
        None \<Rightarrow> (fs, Inl (FileNotFoundError src))
      | Some content \<Rightarrow> (fmupd dst content (fmdrop src fs), Inr ()))"

subsection \<open>Facts the termination of the backup scan rests on\<close>

lemma parent_name: "path_parent p @ path_name p = p"
proof -
  let ?P = "\<lambda>c. c \<noteq> CHR ''/''"
  have "rev (dropWhile ?P (rev p)) @ rev (takeWhile ?P (rev p)) =
        rev (takeWhile ?P (rev p) @ dropWhile ?P (rev p))"
    by (simp only: rev_append)
  also have "\<dots> = p" by (simp only: takeWhile_dropWhile_id rev_rev_ident)
  finally show ?thesis by (simp only: path_parent_def path_name_def)
qed

lemma split_at_last:
  assumes "c \<in> set xs"
  shows "\<exists>t. xs = t @ c # rev (takeWhile (\<lambda>d. d \<noteq> c) (rev xs))"
proof -
  let ?P = "\<lambda>d. d \<noteq> c"
  have ne: "dropWhile ?P (rev xs) \<noteq> []" using assms by simp
  have "\<not> ?P (hd (dropWhile ?P (rev xs)))" using ne by (rule hd_dropWhile)
  then obtain t where t: "dropWhile ?P (rev xs) = c # t"
    using ne by (cases "dropWhile ?P (rev xs)") auto
  have "takeWhile ?P (rev xs) @ dropWhile ?P (rev xs) = rev xs"
    by (rule takeWhile_dropWhile_id)
  then have "rev (takeWhile ?P (rev xs) @ c # t) = rev (rev xs)" using t by simp
  then have "xs = rev t @ c # rev (takeWhile ?P (rev xs))" by simp
  then show ?thesis by blast
qed

lemma suffix_is_tail: "\<exists>s. path_name p = s @ path_suffix p"
proof (cases "CHR ''.'' \<in> set (path_name p)")
  case True
  from split_at_last [OF True] show ?thesis
    by (auto simp add: path_suffix_def Let_def)
next
  case False
  then show ?thesis by (simp add: path_suffix_def Let_def)
qed

lemma stem_suffix: "path_stem p @ path_suffix p = path_name p"
proof -
  obtain s where s: "path_name p = s @ path_suffix p" using suffix_is_tail by blast
  then have "length (path_name p) - length (path_suffix p) = length s"
    by (metis add_diff_cancel_right' length_append)
  then have "path_stem p = s" using s by (simp add: path_stem_def Let_def)
  then show ?thesis using s by simp
qed

lemma with_suffix_appends:
  assumes "path_name p \<noteq> []"
  shows "with_suffix p (path_suffix p @ s) = Inr (p @ s)"
proof -
  have "path_parent p @ path_stem p @ path_suffix p = p"
    using parent_name [of p] stem_suffix [of p] by simp
  then have "path_parent p @ path_stem p @ path_suffix p @ s = p @ s"
    by (metis append.assoc)
  then show ?thesis using assms by (simp add: with_suffix_def)
qed

lemma suffix_shape: "path_suffix p = [] \<or> hd (path_suffix p) = CHR ''.''"
  by (simp add: path_suffix_def Let_def)

lemma digit_char_code:
  assumes "d < 10"
  shows "(of_char (digit_char d) :: nat) = 48 + d"
proof -
  have "d = 0 \<or> d = 1 \<or> d = 2 \<or> d = 3 \<or> d = 4 \<or> d = 5 \<or> d = 6 \<or> d = 7 \<or> d = 8 \<or> d = 9"
    using assms by arith
  then show ?thesis by (elim disjE) (simp_all add: digit_char_def)
qed

lemma digit_char_inj:
  assumes "a < 10" "b < 10" "digit_char a = digit_char b"
  shows "a = b"
proof -
  have "(of_char (digit_char a) :: nat) = of_char (digit_char b)" using assms(3) by simp
  then show ?thesis using digit_char_code assms(1,2) by simp
qed

lemma str_nat_nonempty: "str_nat n \<noteq> []"
  by (subst str_nat.simps) simp

lemma str_nat_inj: "str_nat m = str_nat n \<Longrightarrow> m = n"
proof (induction m arbitrary: n rule: str_nat.induct)
  case (1 m)
  show ?case
  proof (cases "m < 10")
    case True
    show ?thesis
    proof (cases "n < 10")
      case n: True
      have "[digit_char m] = [digit_char n]"
        using "1.prems" True n by (simp add: str_nat.simps [of m] str_nat.simps [of n])
      then show ?thesis using digit_char_inj True n by simp
    next
      case False
      have "[digit_char m] = str_nat (n div 10) @ [digit_char (n mod 10)]"
        using "1.prems" True False by (simp add: str_nat.simps [of m] str_nat.simps [of n])
      then show ?thesis using str_nat_nonempty [of "n div 10"] by simp
    qed
  next
    case False
    show ?thesis
    proof (cases "n < 10")
      case True
      have "str_nat (m div 10) @ [digit_char (m mod 10)] = [digit_char n]"
        using "1.prems" True False by (simp add: str_nat.simps [of m] str_nat.simps [of n])
      then show ?thesis using str_nat_nonempty [of "m div 10"] by simp
    next
      case n: False
      have "str_nat (m div 10) @ [digit_char (m mod 10)] = str_nat (n div 10) @ [digit_char (n mod 10)]"
        using "1.prems" n False by (simp add: str_nat.simps [of m] str_nat.simps [of n])
      then have a: "str_nat (m div 10) = str_nat (n div 10)"
        and b: "digit_char (m mod 10) = digit_char (n mod 10)" by simp_all
      have "m div 10 = n div 10" using "1.IH" [OF False a] .
      moreover have "m mod 10 = n mod 10" using digit_char_inj [OF _ _ b] by simp
      ultimately show ?thesis by (metis div_mult_mod_eq)
    qed
  qed
qed

lemma with_suffix_Inr:
  assumes "with_suffix path (path_suffix path @ s) = Inr b"
  shows "b = path @ s"
proof -
  have "path_name path \<noteq> []" using assms by (simp add: with_suffix_def split: if_splits)
  then have "with_suffix path (path_suffix path @ s) = Inr (path @ s)"
    by (rule with_suffix_appends)
  then show ?thesis using assms by simp
qed

lemma finite_backup_indices:
  "finite {j. path_exists fs (path @ ''.bak'' @ str_nat j)}"
proof -
  let ?f = "\<lambda>j. path @ ''.bak'' @ str_nat j"
  have "inj ?f" by (rule injI) (auto dest: str_nat_inj)
  then have "finite (?f -` fmdom' fs)" by (simp add: finite_vimageI)
  moreover have "{j. path_exists fs (?f j)} = ?f -` fmdom' fs"
    by (auto simp add: path_exists_def fmlookup_dom'_iff)
  ultimately show ?thesis by simp
qed

subsection \<open>The backup scan\<close>

text \<open>
  The \<^verbatim>\<open>while True\<close> loop of \<open>safe_backup\<close>, from the index \<open>i\<close>. It ends because
  the file system holds finitely many files and the candidate names are pairwise
  distinct.
\<close>

function safe_backup_loop :: "filesystem \<Rightarrow> path \<Rightarrow> nat \<Rightarrow> filesystem \<times> (error + path)" where
  "safe_backup_loop fs path i =
     (case with_suffix path (path_suffix path @ ''.bak'' @ str_nat i) of
        Inl e \<Rightarrow> (fs, Inl e)
      | Inr bak_i \<Rightarrow>
          if \<not> path_exists fs bak_i then
            (case path_replace fs path bak_i of
               (fs', Inl e) \<Rightarrow> (fs', Inl e)
             | (fs', Inr _) \<Rightarrow> (fs', Inr bak_i))
          else safe_backup_loop fs path (i + 1))"
  by pat_completeness auto
termination
proof (relation "measure (\<lambda>(fs, path, i). card {j. i \<le> j \<and> path_exists fs (path @ ''.bak'' @ str_nat j)})")
  show "wf (measure (\<lambda>(fs, path, i). card {j. i \<le> j \<and> path_exists fs (path @ ''.bak'' @ str_nat j)}))"
    by simp
next
  fix fs :: filesystem and path :: path and i :: nat and bak_i :: path
  assume w: "with_suffix path (path_suffix path @ ''.bak'' @ str_nat i) = Inr bak_i"
    and e: "\<not> \<not> path_exists fs bak_i"
  let ?S = "\<lambda>k. {j. k \<le> j \<and> path_exists fs (path @ ''.bak'' @ str_nat j)}"
  have b: "bak_i = path @ ''.bak'' @ str_nat i" using w by (rule with_suffix_Inr)
  have fin: "finite (?S i)" using finite_backup_indices [of fs path] by simp
  have "i \<in> ?S i" using e b by simp
  moreover have "i \<notin> ?S (i + 1)" by simp
  moreover have "?S (i + 1) \<subseteq> ?S i" by auto
  ultimately have "?S (i + 1) \<subset> ?S i" by blast
  then have "card (?S (i + 1)) < card (?S i)" using fin by (rule psubset_card_mono [rotated])
  then show "((fs, path, i + 1), (fs, path, i))
        \<in> measure (\<lambda>(fs, path, i). card {j. i \<le> j \<and> path_exists fs (path @ ''.bak'' @ str_nat j)})"
    by simp
qed

declare safe_backup_loop.simps [simp del]

definition safe_backup :: "filesystem \<Rightarrow> path \<Rightarrow> filesystem \<times> (error + path)" where
  "safe_backup fs path =
     (case with_suffix path (path_suffix path @ ''.bak'') of
        Inl e \<Rightarrow> (fs, Inl e)
      | Inr bak \<Rightarrow>
          if \<not> path_exists fs bak then
            (case path_replace fs path bak of
               (fs', Inl e) \<Rightarrow> (fs', Inl e)
             | (fs', Inr _) \<Rightarrow> (fs', Inr bak))
          else safe_backup_loop fs path 1)"

definition write_with_optional_overwrite ::
  "filesystem \<Rightarrow> path \<Rightarrow> path \<Rightarrow> bool \<Rightarrow> filesystem \<times> (error + path option)" where
  "write_with_optional_overwrite fs in_path temp_out overwrite =
     (if \<not> overwrite then (fs, Inr None)
      else
        (case safe_backup fs in_path of
           (fs1, Inl e) \<Rightarrow> (fs1, Inl e)
         | (fs1, Inr backup_path) \<Rightarrow>
             (case path_replace fs1 temp_out in_path of
                (fs2, Inl e) \<Rightarrow> (fs2, Inl e)
              | (fs2, Inr _) \<Rightarrow> (fs2, Inr (Some backup_path)))))"

section \<open>Running a conversion\<close>

text \<open>
  The single-file branch of \<open>App.run\<close>, after the file chooser has returned
  \<open>in_path\<close>. The renamed path is computed before the \<^verbatim>\<open>try\<close>; an exception in
  the \<^verbatim>\<open>try\<close> is shown and the method returns. The result is the file system
  afterwards and either the error or the saved path, the counters and the backup.
\<close>

definition mode_suffix :: "string \<Rightarrow> string" where
  "mode_suffix mode = (if mode = ''K2A'' then ''_KoalaToAbleton'' else ''_AbletonToKoala'')"

definition run_single ::
  "filesystem \<Rightarrow> path \<Rightarrow> string \<Rightarrow> bool \<Rightarrow>
     filesystem \<times> (error + path \<times> (nat \<times> nat \<times> nat) \<times> path option)" where
  "run_single fs in_path mode overwrite =
     (let suffix = mode_suffix mode in
      case with_name in_path (path_stem in_path @ suffix @ path_suffix in_path) of
        Inl e \<Rightarrow> (fs, Inl e)
      | Inr renamed \<Rightarrow>
          let temp_out = renamed;
              out_path = (if overwrite then in_path else renamed)
          in case convert_midi fs in_path temp_out mode of
               (fs1, Inl e) \<Rightarrow> (fs1, Inl e)
             | (fs1, Inr counts) \<Rightarrow>
                 (case write_with_optional_overwrite fs1 in_path temp_out overwrite of
                    (fs2, Inl e) \<Rightarrow> (fs2, Inl e)
                  | (fs2, Inr bak) \<Rightarrow> (fs2, Inr (out_path, counts, bak))))"

text \<open>
  The batch branch of \<open>App.run\<close>, from the loop over the discovered files to the
  summary message; the dialogs before and after are left out. \<open>batch_file\<close> is the
  body of the \<^verbatim>\<open>try\<close> for one file, \<open>error_text\<close> is \<open>str(e)\<close>, and
  \<open>batch_loop\<close> is the loop with its \<^verbatim>\<open>except\<close> clause.
\<close>

record batch_totals =
  total_files :: nat
  total_events :: nat
  total_changed :: nat
  total_clamped :: nat
  total_backups :: nat
  failures :: "string list"

definition error_text :: "error \<Rightarrow> string" where
  "error_text e =
     (case e of
        ValueError msg \<Rightarrow> msg
      | CodecError msg \<Rightarrow> msg
      | FileNotFoundError p \<Rightarrow>
          ''[Errno 2] No such file or directory: '' @ [CHR 0x27] @ p @ [CHR 0x27])"

definition batch_file ::
  "filesystem \<Rightarrow> path \<Rightarrow> string \<Rightarrow> bool \<Rightarrow> string \<Rightarrow> path \<Rightarrow>
     filesystem \<times> (error + nat \<times> nat \<times> nat \<times> path option)" where
  "batch_file fs out_dir mode overwrite suffix p =
     (case (if overwrite then with_name p (path_stem p @ suffix @ path_suffix p)
            else Inr (out_dir @ ''/'' @ path_stem p @ suffix @ path_suffix p)) of
        Inl e \<Rightarrow> (fs, Inl e)
      | Inr temp_out \<Rightarrow>
          (case convert_midi fs p temp_out mode of
             (fs1, Inl e) \<Rightarrow> (fs1, Inl e)
           | (fs1, Inr (t, c, cl)) \<Rightarrow>
               (case write_with_optional_overwrite fs1 p temp_out overwrite of
                  (fs2, Inl e) \<Rightarrow> (fs2, Inl e)
                | (fs2, Inr bak) \<Rightarrow> (fs2, Inr (t, c, cl, bak)))))"

fun batch_loop ::
  "path \<Rightarrow> string \<Rightarrow> bool \<Rightarrow> string \<Rightarrow> path list \<Rightarrow> filesystem \<times> batch_totals \<Rightarrow>
     filesystem \<times> batch_totals" where
  "batch_loop out_dir mode overwrite suffix [] st = st"
| "batch_loop out_dir mode overwrite suffix (p # ps) (fs, tot) =
     (case batch_file fs out_dir mode overwrite suffix p of
        (fs', Inr (t, c, cl, bak)) \<Rightarrow>
          batch_loop out_dir mode overwrite suffix ps
            (fs', tot\<lparr>total_backups := (if bak \<noteq> None then total_backups tot + 1
                                       else total_backups tot),
                      total_files := total_files tot + 1,
                      total_events := total_events tot + t,
                      total_changed := total_changed tot + c,
                      total_clamped := total_clamped tot + cl\<rparr>)
      | (fs', Inl e) \<Rightarrow>
          batch_loop out_dir mode overwrite suffix ps
            (fs', tot\<lparr>failures := failures tot @ [path_name p @ '': '' @ error_text e]\<rparr>))"

definition newline :: string where
  "newline = [CHR 0x0A]"

fun join :: "string \<Rightarrow> string list \<Rightarrow> string" where
  "join sep [] = []"
| "join sep [x] = x"
| "join sep (x # y # ys) = x @ sep @ join sep (y # ys)"

definition batch_summary :: "string \<Rightarrow> bool \<Rightarrow> nat \<Rightarrow> batch_totals \<Rightarrow> string" where
  "batch_summary mode overwrite n_files tot =
     (let msg = ''Converted files: '' @ str_nat (total_files tot) @ ''/'' @ str_nat n_files @ newline
              @ ''Total note events: '' @ str_nat (total_events tot) @ newline
              @ ''Total events changed: '' @ str_nat (total_changed tot) @ newline;
          msg1 = (if mode = ''K2A''
                  then msg @ ''Total clamped after +36: '' @ str_nat (total_clamped tot) @ newline
                  else msg);
          msg2 = (if overwrite
                  then msg1 @ ''Backups created: '' @ str_nat (total_backups tot) @ newline
                  else msg1)
      in if failures tot \<noteq> [] then
           let msg3 = msg2 @ newline @ ''Some files failed:'' @ newline
                        @ join newline (take 10 (failures tot))
           in if length (failures tot) > 10 then msg3 @ newline @ ''...'' else msg3
         else msg2)"

definition run_batch ::
  "filesystem \<Rightarrow> path \<Rightarrow> path list \<Rightarrow> string \<Rightarrow> bool \<Rightarrow> filesystem \<times> batch_totals \<times> string" where
  "run_batch fs folder midi_files mode overwrite =
     (let out_dir = folder @ ''/'' @ ''_converted'';
          suffix = mode_suffix mode;
          (fs', tot) = batch_loop out_dir mode overwrite suffix midi_files
                         (fs, \<lparr>total_files = 0, total_events = 0, total_changed = 0,
                               total_clamped = 0, total_backups = 0, failures = []\<rparr>)
      in (fs', tot, batch_summary mode overwrite (length midi_files) tot))"

section \<open>Notions of the specification and example data\<close>

text \<open>
  The rewriting of one event in the words of the specification: a note-on or note-off
  event gets the transformed note, every other event is left as it is.
\<close>

definition spec_rewrite :: "string \<Rightarrow> message \<Rightarrow> message" where
  "spec_rewrite mode msg =
     (if msg_type msg \<in> set [''note_on'', ''note_off'']
      then msg\<lparr>msg_note :=
             (if mode = ''K2A'' then fst (forward_koala_to_ableton (msg_note msg))
              else fst (inverse_ableton_to_koala (msg_note msg)))\<rparr>
      else msg)"

text \<open>
  The names the specification enumerates for the backups of \<open>path\<close>:
  \<open>path.bak\<close> at index 0, then \<open>path.bak1\<close>, \<open>path.bak2\<close>, and so on.
\<close>

definition backup_candidate :: "path \<Rightarrow> nat \<Rightarrow> path" where
  "backup_candidate path k =
     (if k = 0 then path @ ''.bak'' else path @ ''.bak'' @ str_nat k)"

text \<open>
  Converting the same source file with overwrite switched on, once for every mode of
  the list, each run starting from the file system the previous one left.
\<close>

fun repeated_overwrite :: "filesystem \<Rightarrow> path \<Rightarrow> string list \<Rightarrow> filesystem" where
  "repeated_overwrite fs in_path [] = fs"
| "repeated_overwrite fs in_path (mode # modes) =
     repeated_overwrite (fst (run_single fs in_path mode True)) in_path modes"

text \<open>A track used in the examples: a tempo event and a note-on/note-off pair.\<close>

definition example_track :: "message list" where
  "example_track =
     [\<lparr>msg_type = ''set_tempo'', channel = 0, msg_note = 0, velocity = 0, time = 0, payload = [500000]\<rparr>,
      \<lparr>msg_type = ''note_on'', channel = 0, msg_note = 60, velocity = 100, time = 0, payload = []\<rparr>,
      \<lparr>msg_type = ''note_off'', channel = 0, msg_note = 60, velocity = 0, time = 480, payload = []\<rparr>]"

text \<open>A file system with a source file and one older backup of it.\<close>

definition backup_fs :: filesystem where
  "backup_fs =
     fmupd ''a.mid.bak'' (Unreadable ''an older backup'')
       (fmupd ''a.mid'' (MidiData [example_track]) fmempty)"

text \<open>
  A folder with two readable files and, between them, one the MIDI library rejects;
  and the example track after the forward conversion.
\<close>

definition example_track_K2A :: "message list" where
  "example_track_K2A =
     [\<lparr>msg_type = ''set_tempo'', channel = 0, msg_note = 0, velocity = 0, time = 0, payload = [500000]\<rparr>,
      \<lparr>msg_type = ''note_on'', channel = 0, msg_note = 84, velocity = 100, time = 0, payload = []\<rparr>,
      \<lparr>msg_type = ''note_off'', channel = 0, msg_note = 84, velocity = 0, time = 480, payload = []\<rparr>]"

definition example_fs :: filesystem where
  "example_fs =
     fmupd ''d/a.mid'' (MidiData [example_track])
       (fmupd ''d/bad.mid'' (Unreadable ''not a MIDI file'')
         (fmupd ''d/c.mid'' (MidiData [example_track]) fmempty))"

text \<open>
  A folder of eleven files, every one of which the MIDI library rejects, and the
  failure entries a batch over it records.
\<close>

definition failing_files :: "path list" where
  "failing_files =
     [''d/01.mid'', ''d/02.mid'', ''d/03.mid'', ''d/04.mid'', ''d/05.mid'', ''d/06.mid'',
      ''d/07.mid'', ''d/08.mid'', ''d/09.mid'', ''d/10.mid'', ''d/11.mid'']"

definition failing_fs :: filesystem where
  "failing_fs = fmap_of_list (map (\<lambda>p. (p, Unreadable ''not a MIDI file'')) failing_files)"

definition failing_entries :: "string list" where
  "failing_entries =
     [''01.mid: not a MIDI file'', ''02.mid: not a MIDI file'', ''03.mid: not a MIDI file'',
      ''04.mid: not a MIDI file'', ''05.mid: not a MIDI file'', ''06.mid: not a MIDI file'',
      ''07.mid: not a MIDI file'', ''08.mid: not a MIDI file'', ''09.mid: not a MIDI file'',
      ''10.mid: not a MIDI file'', ''11.mid: not a MIDI file'']"

section \<open>Properties of the mapping core\<close>

subsection \<open>The permutation of residues\<close>

lemma remap_within_32_range:
  "0 \<le> w \<Longrightarrow> w \<le> 31 \<Longrightarrow> 0 \<le> remap_within_32 w \<and> remap_within_32 w \<le> 31"
  unfolding remap_within_32_def by simp

lemma remap_within_32_invol:
  "0 \<le> w \<Longrightarrow> w \<le> 31 \<Longrightarrow> remap_within_32 (remap_within_32 w) = w"
  unfolding remap_within_32_def by simp

lemma remap_within_32_moves:
  "0 \<le> w \<Longrightarrow> w \<le> 31 \<Longrightarrow> remap_within_32 w \<noteq> w"
  unfolding remap_within_32_def by simp

subsection \<open>Remapping a note inside the MIDI range\<close>

lemma remap_note_fst:
  assumes "0 \<le> n" "n \<le> 127"
  shows "fst (remap_note n) = n - n mod 32 + remap_within_32 (n mod 32)"
  using assms by (simp add: remap_note_def Let_def)

lemma remap_note_changed:
  assumes "0 \<le> n" "n \<le> 127"
  shows "snd (remap_note n)"
proof -
  have "remap_within_32 (n mod 32) \<noteq> n mod 32"
    by (rule remap_within_32_moves) simp_all
  then show ?thesis using assms by (simp add: remap_note_def Let_def)
qed

lemma remap_note_range:
  assumes "0 \<le> n" "n \<le> 127"
  shows "0 \<le> fst (remap_note n) \<and> fst (remap_note n) \<le> 127"
proof -
  have r: "0 \<le> remap_within_32 (n mod 32) \<and> remap_within_32 (n mod 32) \<le> 31"
    by (rule remap_within_32_range) simp_all
  have b: "0 \<le> n - n mod 32 \<and> n - n mod 32 \<le> 96" using assms by presburger
  show ?thesis using r b assms by (simp add: remap_note_fst)
qed

lemma remap_note_mod:
  assumes "0 \<le> n" "n \<le> 127"
  shows "fst (remap_note n) mod 32 = remap_within_32 (n mod 32)"
proof -
  have r: "0 \<le> remap_within_32 (n mod 32) \<and> remap_within_32 (n mod 32) \<le> 31"
    by (rule remap_within_32_range) simp_all
  have d: "(n - n mod 32) mod 32 = 0" by presburger
  have "(n - n mod 32 + remap_within_32 (n mod 32)) mod 32 = remap_within_32 (n mod 32) mod 32"
    using d by (metis mod_add_left_eq add_0)
  also have "\<dots> = remap_within_32 (n mod 32)" using r by simp
  finally show ?thesis using assms by (simp add: remap_note_fst)
qed

lemma remap_note_invol:
  assumes "0 \<le> n" "n \<le> 127"
  shows "fst (remap_note (fst (remap_note n))) = n"
proof -
  let ?m = "fst (remap_note n)"
  have rng: "0 \<le> ?m \<and> ?m \<le> 127" using assms by (rule remap_note_range)
  have md: "?m mod 32 = remap_within_32 (n mod 32)" using assms by (rule remap_note_mod)
  have base: "?m - ?m mod 32 = n - n mod 32" using assms md by (simp add: remap_note_fst)
  have "fst (remap_note ?m) = ?m - ?m mod 32 + remap_within_32 (?m mod 32)"
    using rng by (simp add: remap_note_fst)
  also have "\<dots> = n - n mod 32 + remap_within_32 (remap_within_32 (n mod 32))"
    using base md by simp
  also have "\<dots> = n - n mod 32 + n mod 32"
    by (simp add: remap_within_32_invol)
  finally show ?thesis by simp
qed

lemma forward_in_range:
  assumes "0 \<le> n" "n \<le> 127"
  shows "forward_koala_to_ableton n =
           (fst (clamp_midi (fst (remap_note n) + OCTAVE_SHIFT)), True,
            snd (clamp_midi (fst (remap_note n) + OCTAVE_SHIFT)))"
  using remap_note_changed [OF assms]
  by (simp add: forward_koala_to_ableton_def Let_def case_prod_beta)

lemmas note_defs =
  forward_koala_to_ableton_def inverse_ableton_to_koala_def remap_note_def
  remap_within_32_def clamp_midi_def OCTAVE_SHIFT_def Let_def

subsection \<open>Claims about the note transform\<close>

text \<open>
  C1. For every note \<open>n\<close> in [0,127] on which \<open>forward_koala_to_ableton\<close> does not
  clamp, \<open>inverse_ableton_to_koala\<close> applied to the forward result returns the pair
  of the original note and the changed flag that forward reported.
\<close>

theorem forward_inverse_round_trip:
  assumes "0 \<le> n" and "n \<le> 127"
    and "\<not> snd (snd (forward_koala_to_ableton n))"
  shows "inverse_ableton_to_koala (fst (forward_koala_to_ableton n)) =
           (n, fst (snd (forward_koala_to_ableton n)))"
proof -
  let ?r = "fst (remap_note n)"
  have fw: "forward_koala_to_ableton n =
      (fst (clamp_midi (?r + OCTAVE_SHIFT)), True, snd (clamp_midi (?r + OCTAVE_SHIFT)))"
    using assms(1,2) by (rule forward_in_range)
  have rng: "0 \<le> ?r \<and> ?r \<le> 127" using assms(1,2) by (rule remap_note_range)
  have "\<not> snd (clamp_midi (?r + OCTAVE_SHIFT))" using assms(3) fw by simp
  then have f: "fst (forward_koala_to_ableton n) = ?r + OCTAVE_SHIFT"
    using fw by (simp add: clamp_midi_def split: if_splits)
  have inv: "fst (remap_note ?r) = n" using assms(1,2) by (rule remap_note_invol)
  show ?thesis
    using rng inv f fw by (simp add: inverse_ableton_to_koala_def Let_def)
qed

theorem forward_inverse_round_trip_witness:
  "(0::int) \<le> 5 \<and> (5::int) \<le> 127 \<and> \<not> snd (snd (forward_koala_to_ableton 5)) \<and>
   forward_koala_to_ableton 5 = (45, True, False) \<and>
   inverse_ableton_to_koala (fst (forward_koala_to_ableton 5)) = (5, True)"
proof -
  have h1: "(0::int) \<le> 5" and h2: "(5::int) \<le> 127" by simp_all
  have fw: "forward_koala_to_ableton 5 = (45, True, False)" by (simp add: note_defs)
  then have h3: "\<not> snd (snd (forward_koala_to_ableton 5))" by simp
  show ?thesis using forward_inverse_round_trip [OF h1 h2 h3] fw by simp
qed

text \<open>
  C2. The permutation \<open>remap_within_32\<close> is a total involution on the residues
  [0,31]: it maps every residue into [0,31], and applying it twice gives the residue
  back.
\<close>

theorem remap_within_32_involution:
  assumes "0 \<le> w" and "w \<le> 31"
  shows "0 \<le> remap_within_32 w \<and> remap_within_32 w \<le> 31 \<and>
         remap_within_32 (remap_within_32 w) = w"
  using assms remap_within_32_range [of w] remap_within_32_invol [of w] by simp

theorem remap_within_32_involution_witness:
  "(0::int) \<le> 5 \<and> (5::int) \<le> 31 \<and> remap_within_32 5 = 9 \<and> remap_within_32 9 = 5 \<and>
   remap_within_32 (remap_within_32 5) = 5"
proof -
  have h1: "(0::int) \<le> 5" and h2: "(5::int) \<le> 31" by simp_all
  have v: "remap_within_32 5 = 9 \<and> remap_within_32 9 = 5" by (simp add: remap_within_32_def)
  show ?thesis using remap_within_32_involution [OF h1 h2] v by simp
qed

text \<open>
  C3. \<open>inverse_ableton_to_koala\<close> resolves its two candidates in a fixed order. When
  \<open>note - 36\<close> lies in [0,127], so that the candidate \<open>n2 = fst (remap_note (note - 36))\<close>
  is defined, and forward of \<open>n2\<close> gives \<open>note\<close> back, the result is \<open>(n2, True)\<close>,
  whether or not forward of \<open>note\<close> itself gives \<open>note\<close>. Otherwise, when forward of
  \<open>note\<close> gives \<open>note\<close>, the result is \<open>(note, False)\<close>; otherwise it is
  \<open>(note, False)\<close> as the fallback. Scenario B is the note 48: the unshifted candidate
  fails (forward of 48 is 96) and the shifted candidate 0 wins. The note 127 validates
  both candidates, and the shifted one, 87, is returned.
\<close>

theorem inverse_resolution_order:
  "inverse_ableton_to_koala note =
     (if (0 \<le> note - 36 \<and> note - 36 \<le> 127) \<and>
         fst (forward_koala_to_ableton (fst (remap_note (note - 36)))) = note
      then (fst (remap_note (note - 36)), True)
      else if fst (forward_koala_to_ableton note) = note then (note, False)
      else (note, False))
   \<and> inverse_ableton_to_koala 48 = (0, True)
   \<and> fst (remap_note (48 - 36)) = 0
   \<and> fst (forward_koala_to_ableton 0) = 48
   \<and> fst (forward_koala_to_ableton 48) = 96
   \<and> fst (forward_koala_to_ableton 127) = 127
   \<and> fst (forward_koala_to_ableton 87) = 127
   \<and> inverse_ableton_to_koala 127 = (87, True)"
proof -
  have "inverse_ableton_to_koala note =
     (if (0 \<le> note - 36 \<and> note - 36 \<le> 127) \<and>
         fst (forward_koala_to_ableton (fst (remap_note (note - 36)))) = note
      then (fst (remap_note (note - 36)), True)
      else if fst (forward_koala_to_ableton note) = note then (note, False)
      else (note, False))"
    by (simp add: inverse_ableton_to_koala_def Let_def OCTAVE_SHIFT_def)
  moreover have "inverse_ableton_to_koala 48 = (0, True)" by (simp add: note_defs)
  moreover have "fst (remap_note (48 - 36)) = 0" by (simp add: note_defs)
  moreover have "fst (forward_koala_to_ableton 0) = 48" by (simp add: note_defs)
  moreover have "fst (forward_koala_to_ableton 48) = 96" by (simp add: note_defs)
  moreover have "fst (forward_koala_to_ableton 127) = 127" by (simp add: note_defs)
  moreover have "fst (forward_koala_to_ableton 87) = 127" by (simp add: note_defs)
  moreover have "inverse_ableton_to_koala 127 = (87, True)" by (simp add: note_defs)
  ultimately show ?thesis by blast
qed

text \<open>
  C4. No residue in [0,31] is a fixed point of \<open>remap_within_32\<close>. Hence for every
  note in [0,127] \<open>remap_note\<close> reports a change, and \<open>forward_koala_to_ableton\<close>
  takes the branch that adds the shift of 36 and clamps: its changed flag is set and
  the pass-through result \<open>(note, False, False)\<close> is never returned.
\<close>

theorem no_fixed_point_always_shifted:
  assumes "0 \<le> w" and "w \<le> 31" and "0 \<le> n" and "n \<le> 127"
  shows "remap_within_32 w \<noteq> w \<and>
         snd (remap_note n) \<and>
         forward_koala_to_ableton n =
           (fst (clamp_midi (fst (remap_note n) + 36)), True,
            snd (clamp_midi (fst (remap_note n) + 36))) \<and>
         forward_koala_to_ableton n \<noteq> (n, False, False)"
proof -
  have a: "remap_within_32 w \<noteq> w" using assms(1,2) by (rule remap_within_32_moves)
  have b: "snd (remap_note n)" using assms(3,4) by (rule remap_note_changed)
  have c: "forward_koala_to_ableton n =
           (fst (clamp_midi (fst (remap_note n) + 36)), True,
            snd (clamp_midi (fst (remap_note n) + 36)))"
    using forward_in_range [OF assms(3,4)] by (simp add: OCTAVE_SHIFT_def)
  have d: "forward_koala_to_ableton n \<noteq> (n, False, False)" using c by simp
  show ?thesis using a b c d by blast
qed

theorem no_fixed_point_always_shifted_witness:
  "(0::int) \<le> 31 \<and> (31::int) \<le> 31 \<and> (0::int) \<le> 64 \<and> (64::int) \<le> 127 \<and>
   remap_within_32 31 = 19 \<and> remap_note 64 = (76, True) \<and>
   forward_koala_to_ableton 64 = (112, True, False)"
proof -
  have h1: "(0::int) \<le> 31" and h2: "(31::int) \<le> 31"
    and h3: "(0::int) \<le> 64" and h4: "(64::int) \<le> 127" by simp_all
  have v: "remap_within_32 31 = 19 \<and> remap_note 64 = (76, True)" by (simp add: note_defs)
  have c: "clamp_midi 112 = (112, False)" by (simp add: clamp_midi_def)
  show ?thesis using no_fixed_point_always_shifted [OF h1 h2 h3 h4] v c by simp
qed

text \<open>
  C7. For every note outside [0,127], \<open>remap_note\<close> returns the note itself with the
  changed flag unset: the value is passed through, not rejected.
\<close>

theorem remap_note_out_of_range:
  assumes "n < 0 \<or> n > 127"
  shows "remap_note n = (n, False)"
  using assms by (auto simp add: remap_note_def)

theorem remap_note_out_of_range_witness:
  "((128::int) < 0 \<or> (128::int) > 127) \<and> remap_note 128 = (128, False)"
proof -
  have h: "(128::int) < 0 \<or> (128::int) > 127" by simp
  show ?thesis using remap_note_out_of_range [OF h] by simp
qed

text \<open>
  C8. Scenario C: forward of 119 is \<open>(127, True, True)\<close>. The residue 23 maps to 27,
  the base 96 gives 123, the shift gives 159, which saturates to 127 with the clamp
  flag set.
\<close>

theorem forward_119_saturates:
  "forward_koala_to_ableton 119 = (127, True, True) \<and>
   (119::int) mod 32 = 23 \<and> remap_within_32 23 = 27 \<and>
   remap_note 119 = (123, True) \<and> 123 + OCTAVE_SHIFT = 159 \<and>
   clamp_midi 159 = (127, True)"
  by (simp add: note_defs)

section \<open>Properties of the event converter\<close>

lemma forward_unchanged: "\<not> fst (snd (forward_koala_to_ableton n)) \<Longrightarrow> fst (forward_koala_to_ableton n) = n"
  by (simp add: forward_koala_to_ableton_def Let_def case_prod_beta split: if_splits)

lemma inverse_unchanged: "\<not> snd (inverse_ableton_to_koala n) \<Longrightarrow> fst (inverse_ableton_to_koala n) = n"
  by (auto simp add: inverse_ableton_to_koala_def Let_def split: if_splits)

lemma convert_msg_valid:
  assumes "mode = ''K2A'' \<or> mode = ''A2K''"
  shows "\<exists>c'. convert_msg mode msg c =
     Inr (if msg_type msg \<in> set [''note_on'', ''note_off'']
          then msg\<lparr>msg_note := (if mode = ''K2A'' then fst (forward_koala_to_ableton (msg_note msg))
                                   else fst (inverse_ableton_to_koala (msg_note msg)))\<rparr>
          else msg, c')"
proof (cases "mode = ''K2A''")
  case True
  show ?thesis
  proof (cases "fst (snd (forward_koala_to_ableton (msg_note msg)))")
    case t: True
    then show ?thesis using True by (cases c) (simp add: convert_msg_def Let_def case_prod_beta)
  next
    case False
    then show ?thesis using True forward_unchanged [OF False]
      by (cases c) (simp add: convert_msg_def Let_def case_prod_beta)
  qed
next
  case False
  then have m: "mode = ''A2K''" using assms by simp
  show ?thesis
  proof (cases "snd (inverse_ableton_to_koala (msg_note msg))")
    case True
    then show ?thesis using m by (cases c) (simp add: convert_msg_def Let_def case_prod_beta)
  next
    case False
    then show ?thesis using m inverse_unchanged [OF False]
      by (cases c) (simp add: convert_msg_def Let_def case_prod_beta)
  qed
qed

lemma convert_msg_rewrite:
  assumes "mode = ''K2A'' \<or> mode = ''A2K''"
  shows "\<exists>c'. convert_msg mode msg c = Inr (spec_rewrite mode msg, c')"
  using convert_msg_valid [OF assms, of msg c] by (simp add: spec_rewrite_def)

lemma convert_track_rewrite:
  assumes "mode = ''K2A'' \<or> mode = ''A2K''"
  shows "\<exists>c'. convert_track mode msgs c = Inr (map (spec_rewrite mode) msgs, c')"
proof (induction msgs arbitrary: c)
  case Nil
  show ?case by (cases c) simp
next
  case (Cons msg msgs)
  obtain c1 where a: "convert_msg mode msg c = Inr (spec_rewrite mode msg, c1)"
    using convert_msg_rewrite [OF assms] by blast
  obtain c2 where b: "convert_track mode msgs c1 = Inr (map (spec_rewrite mode) msgs, c2)"
    using Cons.IH by blast
  show ?case using a b by (cases c2) simp
qed

lemma convert_tracks_rewrite:
  assumes "mode = ''K2A'' \<or> mode = ''A2K''"
  shows "\<exists>c'. convert_tracks mode tracks c = Inr (map (map (spec_rewrite mode)) tracks, c')"
proof (induction tracks arbitrary: c)
  case Nil
  show ?case by (cases c) simp
next
  case (Cons track tracks)
  obtain c1 where a: "convert_track mode track c = Inr (map (spec_rewrite mode) track, c1)"
    using convert_track_rewrite [OF assms] by blast
  obtain c2 where b: "convert_tracks mode tracks c1 = Inr (map (map (spec_rewrite mode)) tracks, c2)"
    using Cons.IH by blast
  show ?case using a b by (cases c2) simp
qed

lemma convert_msg_other:
  assumes "msg_type msg \<notin> set [''note_on'', ''note_off'']"
  shows "convert_msg mode msg c = Inr (msg, c)"
  using assms by (cases c) (simp add: convert_msg_def)

lemma convert_track_no_notes:
  assumes "\<forall>msg \<in> set msgs. msg_type msg \<notin> set [''note_on'', ''note_off'']"
  shows "convert_track mode msgs c = Inr (msgs, c)"
  using assms by (induction msgs) (simp_all add: convert_msg_other)

lemma convert_tracks_no_notes:
  assumes "\<forall>track \<in> set tracks. \<forall>msg \<in> set track. msg_type msg \<notin> set [''note_on'', ''note_off'']"
  shows "convert_tracks mode tracks c = Inr (tracks, c)"
  using assms by (induction tracks) (simp_all add: convert_track_no_notes)

lemma convert_tracks_unknown_mode:
  assumes "mode \<noteq> ''K2A''" and "mode \<noteq> ''A2K''"
    and "msg_type msg \<in> set [''note_on'', ''note_off'']"
  shows "convert_track mode (msg # msgs) c = Inl (ValueError (''Unknown mode: '' @ mode))"
  using assms by (cases c) (simp add: convert_msg_def)

lemmas convert_defs = convert_midi_def convert_msg_def example_track_def

text \<open>
  C5. The claim: for every input file and every mode that is neither \<open>K2A\<close> nor
  \<open>A2K\<close>, the conversion fails with the unknown-mode error and writes no output. The
  mode is only examined inside the loop, at a note-on or note-off event. On a file
  with no such event (here a single tempo event) the mode \<open>X\<close> raises nothing: the
  output file is written and the counters \<open>(0, 0, 0)\<close> are returned. On a file with a
  note event the same mode does raise, and the file system is left as it was.
\<close>

theorem convert_midi_unknown_mode_without_notes:
  "convert_midi
     (fmupd ''a.mid'' (MidiData [[\<lparr>msg_type = ''set_tempo'', channel = 0, msg_note = 0,
        velocity = 0, time = 0, payload = [500000]\<rparr>]]) fmempty)
     ''a.mid'' ''b.mid'' ''X'' =
   (fmupd ''b.mid'' (MidiData [[\<lparr>msg_type = ''set_tempo'', channel = 0, msg_note = 0,
        velocity = 0, time = 0, payload = [500000]\<rparr>]])
     (fmupd ''a.mid'' (MidiData [[\<lparr>msg_type = ''set_tempo'', channel = 0, msg_note = 0,
        velocity = 0, time = 0, payload = [500000]\<rparr>]]) fmempty),
    Inr (0, 0, 0))
   \<and> convert_midi (fmupd ''a.mid'' (MidiData [example_track]) fmempty) ''a.mid'' ''b.mid'' ''X'' =
       (fmupd ''a.mid'' (MidiData [example_track]) fmempty, Inl (ValueError ''Unknown mode: X''))"
  by (simp add: convert_defs)

text \<open>
  C6. For a readable input file and a valid mode, \<open>convert_midi\<close> succeeds and writes
  tracks that correspond to the input tracks one to one, event by event and in order.
  Each output event has the type, channel, velocity, time and payload of the input
  event; an event that is not note-on or note-off is identical; and where the note
  differs, the event is note-on or note-off and the new note is the transform's output.
\<close>

theorem convert_midi_frame:
  assumes "mode = ''K2A'' \<or> mode = ''A2K''"
    and "fmlookup fs in_path = Some (MidiData tracks)"
  shows "\<exists>tracks' counts.
           convert_midi fs in_path out_path mode =
             (fmupd out_path (MidiData tracks') fs, Inr counts) \<and>
           list_all2 (list_all2 (\<lambda>e e'.
               msg_type e' = msg_type e \<and> channel e' = channel e \<and>
               velocity e' = velocity e \<and> time e' = time e \<and> payload e' = payload e \<and>
               (msg_type e \<notin> set [''note_on'', ''note_off''] \<longrightarrow> e' = e) \<and>
               (msg_note e' \<noteq> msg_note e \<longrightarrow>
                  msg_type e \<in> set [''note_on'', ''note_off''] \<and>
                  msg_note e' =
                    (if mode = ''K2A'' then fst (forward_koala_to_ableton (msg_note e))
                     else fst (inverse_ableton_to_koala (msg_note e))))))
             tracks tracks'"
proof -
  let ?R = "\<lambda>e e'.
               msg_type e' = msg_type e \<and> channel e' = channel e \<and>
               velocity e' = velocity e \<and> time e' = time e \<and> payload e' = payload e \<and>
               (msg_type e \<notin> set [''note_on'', ''note_off''] \<longrightarrow> e' = e) \<and>
               (msg_note e' \<noteq> msg_note e \<longrightarrow>
                  msg_type e \<in> set [''note_on'', ''note_off''] \<and>
                  msg_note e' =
                    (if mode = ''K2A'' then fst (forward_koala_to_ableton (msg_note e))
                     else fst (inverse_ableton_to_koala (msg_note e))))"
  obtain counts where c: "convert_tracks mode tracks (0, 0, 0) =
      Inr (map (map (spec_rewrite mode)) tracks, counts)"
    using convert_tracks_rewrite [OF assms(1)] by blast
  have r: "?R e (spec_rewrite mode e)" for e
    by (simp add: spec_rewrite_def)
  have "list_all2 ?R track (map (spec_rewrite mode) track)" for track
    unfolding list_all2_map2 by (rule list_all2_refl) (rule r)
  then have "list_all2 (list_all2 ?R) tracks (map (map (spec_rewrite mode)) tracks)"
    unfolding list_all2_map2 by (rule list_all2_refl)
  moreover have "convert_midi fs in_path out_path mode =
      (fmupd out_path (MidiData (map (map (spec_rewrite mode)) tracks)) fs, Inr counts)"
    using assms(2) c by (simp add: convert_midi_def)
  ultimately show ?thesis by blast
qed

theorem convert_midi_frame_witness:
  "(''K2A'' = ''K2A'' \<or> ''K2A'' = ''A2K'') \<and>
   fmlookup (fmupd ''a.mid'' (MidiData [example_track]) fmempty) ''a.mid'' =
     Some (MidiData [example_track]) \<and>
   (\<exists>tracks' counts.
      convert_midi (fmupd ''a.mid'' (MidiData [example_track]) fmempty) ''a.mid'' ''b.mid'' ''K2A'' =
        (fmupd ''b.mid'' (MidiData tracks') (fmupd ''a.mid'' (MidiData [example_track]) fmempty),
         Inr counts) \<and>
      list_all2 (list_all2 (\<lambda>e e'.
          msg_type e' = msg_type e \<and> channel e' = channel e \<and>
          velocity e' = velocity e \<and> time e' = time e \<and> payload e' = payload e \<and>
          (msg_type e \<notin> set [''note_on'', ''note_off''] \<longrightarrow> e' = e) \<and>
          (msg_note e' \<noteq> msg_note e \<longrightarrow>
             msg_type e \<in> set [''note_on'', ''note_off''] \<and>
             msg_note e' =
               (if ''K2A'' = ''K2A'' then fst (forward_koala_to_ableton (msg_note e))
                else fst (inverse_ableton_to_koala (msg_note e))))))
        [example_track] tracks') \<and>
   convert_midi (fmupd ''a.mid'' (MidiData [example_track]) fmempty) ''a.mid'' ''b.mid'' ''K2A'' =
     (fmupd ''b.mid'' (MidiData [[
        \<lparr>msg_type = ''set_tempo'', channel = 0, msg_note = 0, velocity = 0, time = 0,
          payload = [500000]\<rparr>,
        \<lparr>msg_type = ''note_on'', channel = 0, msg_note = 84, velocity = 100, time = 0,
          payload = []\<rparr>,
        \<lparr>msg_type = ''note_off'', channel = 0, msg_note = 84, velocity = 0, time = 480,
          payload = []\<rparr>]])
        (fmupd ''a.mid'' (MidiData [example_track]) fmempty),
      Inr (2, 2, 0))"
proof -
  have h1: "''K2A'' = ''K2A'' \<or> ''K2A'' = ''A2K''" by simp
  have h2: "fmlookup (fmupd ''a.mid'' (MidiData [example_track]) fmempty) ''a.mid'' =
     Some (MidiData [example_track])" by simp
  have v: "convert_midi (fmupd ''a.mid'' (MidiData [example_track]) fmempty) ''a.mid'' ''b.mid'' ''K2A'' =
     (fmupd ''b.mid'' (MidiData [[
        \<lparr>msg_type = ''set_tempo'', channel = 0, msg_note = 0, velocity = 0, time = 0,
          payload = [500000]\<rparr>,
        \<lparr>msg_type = ''note_on'', channel = 0, msg_note = 84, velocity = 100, time = 0,
          payload = []\<rparr>,
        \<lparr>msg_type = ''note_off'', channel = 0, msg_note = 84, velocity = 0, time = 480,
          payload = []\<rparr>]])
        (fmupd ''a.mid'' (MidiData [example_track]) fmempty),
      Inr (2, 2, 0))"
    by (simp add: convert_defs note_defs)
  from convert_midi_frame [OF h1 h2, of "''b.mid''"] h1 h2 v show ?thesis by blast
qed

section \<open>Properties of the backup scan\<close>

lemma path_replace_existing:
  assumes "fmlookup fs src = Some content"
  shows "path_replace fs src dst = (fmupd dst content (fmdrop src fs), Inr ())"
  using assms by (simp add: path_replace_def)

lemma safe_backup_loop_first_free:
  "path_name path \<noteq> [] \<Longrightarrow> fmlookup fs path = Some content \<Longrightarrow>
     \<exists>k. i \<le> k \<and>
       safe_backup_loop fs path i =
           (fmupd (path @ ''.bak'' @ str_nat k) content (fmdrop path fs),
            Inr (path @ ''.bak'' @ str_nat k)) \<and>
       \<not> path_exists fs (path @ ''.bak'' @ str_nat k) \<and>
       (\<forall>j. i \<le> j \<and> j < k \<longrightarrow> path_exists fs (path @ ''.bak'' @ str_nat j))"
proof (induction fs path i rule: safe_backup_loop.induct)
  case (1 fs path i)
  let ?b = "\<lambda>k. path @ ''.bak'' @ str_nat k"
  have w: "with_suffix path (path_suffix path @ ''.bak'' @ str_nat i) = Inr (?b i)"
    using "1.prems"(1) by (rule with_suffix_appends)
  show ?case
  proof (cases "path_exists fs (?b i)")
    case False
    have "safe_backup_loop fs path i = (fmupd (?b i) content (fmdrop path fs), Inr (?b i))"
      using w False "1.prems"(2)
      by (simp add: safe_backup_loop.simps [of fs path i] path_replace_def)
    then show ?thesis using False by (intro exI [of _ i]) auto
  next
    case True
    then have nn: "\<not> \<not> path_exists fs (?b i)" by simp
    obtain k where k: "i + 1 \<le> k"
      and r: "safe_backup_loop fs path (i + 1) =
                (fmupd (?b k) content (fmdrop path fs), Inr (?b k))"
      and free: "\<not> path_exists fs (?b k)"
      and used: "\<forall>j. i + 1 \<le> j \<and> j < k \<longrightarrow> path_exists fs (?b j)"
      using "1.IH" [OF w nn "1.prems"] by blast
    have step: "safe_backup_loop fs path i = safe_backup_loop fs path (i + 1)"
      using w True by (simp add: safe_backup_loop.simps [of fs path i])
    have "\<forall>j. i \<le> j \<and> j < k \<longrightarrow> path_exists fs (?b j)"
    proof (intro allI impI)
      fix j assume j: "i \<le> j \<and> j < k"
      show "path_exists fs (?b j)"
      proof (cases "j = i")
        case True
        then show ?thesis using \<open>path_exists fs (?b i)\<close> by simp
      next
        case False
        then have "i + 1 \<le> j \<and> j < k" using j by simp
        then show ?thesis using used by blast
      qed
    qed
    moreover have "i \<le> k" using k by simp
    ultimately show ?thesis using step r free by (intro exI [of _ k]) auto
  qed
qed

lemma safe_backup_first_free:
  assumes "path_name path \<noteq> []" and "fmlookup fs path = Some content"
  shows "\<exists>k. safe_backup fs path =
             (fmupd (backup_candidate path k) content (fmdrop path fs),
              Inr (backup_candidate path k)) \<and>
           \<not> path_exists fs (backup_candidate path k) \<and>
           (\<forall>j. j < k \<longrightarrow> path_exists fs (backup_candidate path j))"
proof -
  have w: "with_suffix path (path_suffix path @ ''.bak'') = Inr (path @ ''.bak'')"
    using assms(1) by (rule with_suffix_appends)
  show ?thesis
  proof (cases "path_exists fs (path @ ''.bak'')")
    case False
    have "safe_backup fs path = (fmupd (path @ ''.bak'') content (fmdrop path fs), Inr (path @ ''.bak''))"
      using w False assms(2) by (simp add: safe_backup_def path_replace_def)
    then show ?thesis using False by (intro exI [of _ 0]) (auto simp add: backup_candidate_def)
  next
    case True
    obtain k where k: "1 \<le> k"
      and r: "safe_backup_loop fs path 1 =
                (fmupd (path @ ''.bak'' @ str_nat k) content (fmdrop path fs),
                 Inr (path @ ''.bak'' @ str_nat k))"
      and free: "\<not> path_exists fs (path @ ''.bak'' @ str_nat k)"
      and used: "\<forall>j. 1 \<le> j \<and> j < k \<longrightarrow> path_exists fs (path @ ''.bak'' @ str_nat j)"
      using safe_backup_loop_first_free [OF assms, of 1] by blast
    have bk: "backup_candidate path k = path @ ''.bak'' @ str_nat k"
      using k by (simp add: backup_candidate_def)
    have "safe_backup fs path = safe_backup_loop fs path 1"
      using w True by (simp add: safe_backup_def)
    moreover have "\<forall>j. j < k \<longrightarrow> path_exists fs (backup_candidate path j)"
    proof (intro allI impI)
      fix j assume "j < k"
      show "path_exists fs (backup_candidate path j)"
      proof (cases "j = 0")
        case True
        then show ?thesis using \<open>path_exists fs (path @ ''.bak'')\<close> by (simp add: backup_candidate_def)
      next
        case False
        then have "1 \<le> j \<and> j < k" using \<open>j < k\<close> by simp
        then have "path_exists fs (path @ ''.bak'' @ str_nat j)" using used by blast
        then show ?thesis using False by (simp add: backup_candidate_def)
      qed
    qed
    ultimately show ?thesis using r free bk by (intro exI [of _ k]) auto
  qed
qed

lemma backup_candidate_not_source: "backup_candidate path k \<noteq> path"
  by (simp add: backup_candidate_def)

lemma temp_out_not_backup:
  assumes "S \<noteq> []" and "hd S \<noteq> CHR ''.''"
  shows "path_parent p @ path_stem p @ S @ path_suffix p \<noteq> backup_candidate p k"
proof
  assume eq: "path_parent p @ path_stem p @ S @ path_suffix p = backup_candidate p k"
  obtain t where t: "backup_candidate p k = p @ ''.bak'' @ t"
    by (cases "k = 0") (simp_all add: backup_candidate_def)
  have p: "p = path_parent p @ path_stem p @ path_suffix p"
    using parent_name [of p] stem_suffix [of p] by simp
  have "path_parent p @ path_stem p @ S @ path_suffix p =
        path_parent p @ path_stem p @ path_suffix p @ ''.bak'' @ t"
    using eq t p by (metis append.assoc)
  then have e: "S @ path_suffix p = path_suffix p @ ''.bak'' @ t" by simp
  obtain c S' where S: "S = c # S'" and c: "c \<noteq> CHR ''.''"
    using assms by (cases S) auto
  show False
  proof (cases "path_suffix p")
    case Nil
    then show ?thesis using e S c by simp
  next
    case (Cons d r)
    then have "d = CHR ''.''" using suffix_shape [of p] by simp
    then show ?thesis using e S c Cons by simp
  qed
qed

lemma safe_backup_keeps_others:
  assumes "path_name path \<noteq> []" and "fmlookup fs path = Some content"
    and "q \<noteq> path" and "path_exists fs q"
  shows "fmlookup (fst (safe_backup fs path)) q = fmlookup fs q"
proof -
  obtain k where r: "safe_backup fs path =
      (fmupd (backup_candidate path k) content (fmdrop path fs), Inr (backup_candidate path k))"
    and free: "\<not> path_exists fs (backup_candidate path k)"
    using safe_backup_first_free [OF assms(1,2)] by blast
  have "q \<noteq> backup_candidate path k" using free assms(4) by auto
  then show ?thesis using r assms(3) by simp
qed

lemma convert_midi_writes_only_out:
  assumes "q \<noteq> out_path"
  shows "fmlookup (fst (convert_midi fs in_path out_path mode)) q = fmlookup fs q"
  using assms by (simp add: convert_midi_def split: option.splits file_content.splits sum.splits prod.splits)

lemma convert_midi_ok_source:
  assumes "convert_midi fs in_path out_path mode = (fs1, Inr counts)"
  shows "\<exists>content. fmlookup fs1 in_path = Some content"
  using assms
  by (auto simp add: convert_midi_def split: option.splits file_content.splits sum.splits prod.splits)

lemma path_replace_keeps_others:
  assumes "q \<noteq> src" and "q \<noteq> dst"
  shows "fmlookup (fst (path_replace fs src dst)) q = fmlookup fs q"
  using assms by (simp add: path_replace_def split: option.splits)

lemma mode_suffix_shape: "mode_suffix mode \<noteq> [] \<and> hd (mode_suffix mode) \<noteq> CHR ''.''"
  by (simp add: mode_suffix_def)

lemma run_single_keeps_backup:
  assumes "fmlookup fs (backup_candidate p j) = Some c"
  shows "fmlookup (fst (run_single fs p mode True)) (backup_candidate p j) = Some c"
proof (cases "path_name p = []")
  case True
  then show ?thesis using assms by (simp add: run_single_def with_name_def)
next
  case False
  let ?b = "backup_candidate p j"
  let ?t = "path_parent p @ path_stem p @ mode_suffix mode @ path_suffix p"
  have tb: "?t \<noteq> ?b" using mode_suffix_shape [of mode] by (intro temp_out_not_backup) simp_all
  have wn: "with_name p (path_stem p @ mode_suffix mode @ path_suffix p) = Inr ?t"
    using False by (simp add: with_name_def)
  obtain fs1 r1 where c1: "convert_midi fs p ?t mode = (fs1, r1)" by (cases "convert_midi fs p ?t mode")
  have k1: "fmlookup fs1 ?b = Some c"
    using convert_midi_writes_only_out [of ?b ?t fs p mode] tb c1 assms by simp
  show ?thesis
  proof (cases r1)
    case (Inl e)
    then show ?thesis using wn c1 k1 by (simp add: run_single_def Let_def)
  next
    case (Inr counts)
    then obtain content where src: "fmlookup fs1 p = Some content"
      using convert_midi_ok_source c1 by blast
    obtain k where sb: "safe_backup fs1 p =
        (fmupd (backup_candidate p k) content (fmdrop p fs1), Inr (backup_candidate p k))"
      using safe_backup_first_free [OF False src] by blast
    let ?fs2 = "fmupd (backup_candidate p k) content (fmdrop p fs1)"
    have "path_exists fs1 ?b" using k1 by (simp add: path_exists_def)
    then have "fmlookup (fst (safe_backup fs1 p)) ?b = fmlookup fs1 ?b"
      using safe_backup_keeps_others [OF False src backup_candidate_not_source] by blast
    then have k2: "fmlookup ?fs2 ?b = Some c" using sb k1 by simp
    have "fmlookup (fst (path_replace ?fs2 ?t p)) ?b = fmlookup ?fs2 ?b"
      using tb backup_candidate_not_source [of p j]
      by (intro path_replace_keeps_others) simp_all
    then have k3: "fmlookup (fst (path_replace ?fs2 ?t p)) ?b = Some c"
      using k2 by (simp only:)
    have "fst (run_single fs p mode True) = fst (path_replace ?fs2 ?t p)"
      using wn c1 Inr sb
      by (simp add: run_single_def Let_def write_with_optional_overwrite_def split: prod.splits sum.splits)
    then show ?thesis using k3 by simp
  qed
qed

lemma repeated_overwrite_keeps_backup:
  "fmlookup fs (backup_candidate p j) = Some c \<Longrightarrow>
     fmlookup (repeated_overwrite fs p modes) (backup_candidate p j) = Some c"
proof (induction modes arbitrary: fs)
  case Nil
  then show ?case by simp
next
  case (Cons mode modes)
  have "fmlookup (fst (run_single fs p mode True)) (backup_candidate p j) = Some c"
    using Cons.prems by (rule run_single_keeps_backup)
  then show ?case using Cons.IH by simp
qed

text \<open>
  With overwrite switched on, one file of a batch goes through the same steps as the
  single-file run, so the lemma above covers batch conversions as well.
\<close>

lemma batch_file_overwrite_as_single:
  "fst (batch_file fs out_dir mode True (mode_suffix mode) p) = fst (run_single fs p mode True)"
  by (simp add: batch_file_def run_single_def Let_def split: sum.splits prod.splits)

lemma str_nat_1: "str_nat (Suc 0) = ''1''"
  by (subst str_nat.simps) (simp add: digit_char_def)

lemmas path_defs =
  with_suffix_def with_name_def path_name_def path_parent_def path_stem_def path_suffix_def
  path_exists_def path_replace_def str_nat.simps digit_char_def

text \<open>
  C9. When the source file exists (and its path names a file), \<open>safe_backup\<close> moves it
  to the candidate of least index that is not present: the chosen name is free, and
  every candidate before it is taken. Scenario E: when \<open>path.bak\<close> is present and
  \<open>path.bak1\<close> is still free, the backup is \<open>path.bak1\<close>. Every other file that
  existed keeps its content, so no existing backup is overwritten, and through any
  sequence of repeated overwrite-conversions of the same source (in any modes) every
  backup that exists keeps its content.
\<close>

theorem safe_backup_first_unused:
  assumes "path_name path \<noteq> []" and "fmlookup fs path = Some content"
  shows "\<exists>k. safe_backup fs path =
             (fmupd (backup_candidate path k) content (fmdrop path fs),
              Inr (backup_candidate path k)) \<and>
           \<not> path_exists fs (backup_candidate path k) \<and>
           (\<forall>j. j < k \<longrightarrow> path_exists fs (backup_candidate path j)) \<and>
           (path_exists fs (path @ ''.bak'') \<and> \<not> path_exists fs (path @ ''.bak1'') \<longrightarrow>
              backup_candidate path k = path @ ''.bak1'') \<and>
           (\<forall>q. q \<noteq> path \<and> path_exists fs q \<longrightarrow>
              fmlookup (fst (safe_backup fs path)) q = fmlookup fs q) \<and>
           (\<forall>modes j c. fmlookup fs (backup_candidate path j) = Some c \<longrightarrow>
              fmlookup (repeated_overwrite fs path modes) (backup_candidate path j) = Some c)"
proof -
  obtain k where r: "safe_backup fs path =
             (fmupd (backup_candidate path k) content (fmdrop path fs),
              Inr (backup_candidate path k))"
    and free: "\<not> path_exists fs (backup_candidate path k)"
    and used: "\<forall>j. j < k \<longrightarrow> path_exists fs (backup_candidate path j)"
    using safe_backup_first_free [OF assms] by blast
  have c0: "backup_candidate path 0 = path @ ''.bak''"
    and c1: "backup_candidate path 1 = path @ ''.bak1''"
    by (simp_all add: backup_candidate_def str_nat_1)
  have e: "path_exists fs (path @ ''.bak'') \<and> \<not> path_exists fs (path @ ''.bak1'') \<longrightarrow>
              backup_candidate path k = path @ ''.bak1''"
  proof
    assume ab: "path_exists fs (path @ ''.bak'') \<and> \<not> path_exists fs (path @ ''.bak1'')"
    have "k \<noteq> 0"
    proof
      assume "k = 0"
      then have "backup_candidate path k = path @ ''.bak''" using c0 by simp
      then show False using free ab by simp
    qed
    moreover have "\<not> 1 < k"
    proof
      assume "1 < k"
      then have "path_exists fs (backup_candidate path 1)" using used by blast
      then show False using ab c1 by simp
    qed
    ultimately have "k = 1" by simp
    then show "backup_candidate path k = path @ ''.bak1''" using c1 by simp
  qed
  have others: "\<forall>q. q \<noteq> path \<and> path_exists fs q \<longrightarrow>
              fmlookup (fst (safe_backup fs path)) q = fmlookup fs q"
    using safe_backup_keeps_others [OF assms] by blast
  have seq: "\<forall>modes j c. fmlookup fs (backup_candidate path j) = Some c \<longrightarrow>
              fmlookup (repeated_overwrite fs path modes) (backup_candidate path j) = Some c"
    using repeated_overwrite_keeps_backup by blast
  show ?thesis
    by (rule exI [of _ k]) (intro conjI, fact r, fact free, fact used, fact e, fact others, fact seq)
qed

theorem safe_backup_first_unused_witness:
  "path_name ''a.mid'' \<noteq> [] \<and>
   fmlookup backup_fs ''a.mid'' = Some (MidiData [example_track]) \<and>
   path_exists backup_fs ''a.mid.bak'' \<and> \<not> path_exists backup_fs ''a.mid.bak1'' \<and>
   safe_backup backup_fs ''a.mid'' =
     (fmupd ''a.mid.bak1'' (MidiData [example_track]) (fmdrop ''a.mid'' backup_fs),
      Inr ''a.mid.bak1'') \<and>
   fmlookup (repeated_overwrite backup_fs ''a.mid'' [''K2A'', ''A2K'']) ''a.mid.bak'' =
     Some (Unreadable ''an older backup'')"
proof -
  have h1: "path_name ''a.mid'' \<noteq> []" by (simp add: path_name_def)
  have h2: "fmlookup backup_fs ''a.mid'' = Some (MidiData [example_track])"
    by (simp add: backup_fs_def)
  have h3: "path_exists backup_fs (''a.mid'' @ ''.bak'') \<and>
            \<not> path_exists backup_fs (''a.mid'' @ ''.bak1'')"
    by (simp add: backup_fs_def path_exists_def)
  have h4: "fmlookup backup_fs (backup_candidate ''a.mid'' 0) = Some (Unreadable ''an older backup'')"
    by (simp add: backup_fs_def backup_candidate_def)
  obtain k where r: "safe_backup backup_fs ''a.mid'' =
             (fmupd (backup_candidate ''a.mid'' k) (MidiData [example_track]) (fmdrop ''a.mid'' backup_fs),
              Inr (backup_candidate ''a.mid'' k))"
    and e: "path_exists backup_fs (''a.mid'' @ ''.bak'') \<and>
            \<not> path_exists backup_fs (''a.mid'' @ ''.bak1'') \<longrightarrow>
              backup_candidate ''a.mid'' k = ''a.mid'' @ ''.bak1''"
    and seq: "\<forall>modes j c. fmlookup backup_fs (backup_candidate ''a.mid'' j) = Some c \<longrightarrow>
              fmlookup (repeated_overwrite backup_fs ''a.mid'' modes) (backup_candidate ''a.mid'' j) = Some c"
    using safe_backup_first_unused [OF h1 h2] by (elim exE conjE) (rule that; assumption)
  have k: "backup_candidate ''a.mid'' k = ''a.mid.bak1''" using e h3 by simp
  have s: "fmlookup (repeated_overwrite backup_fs ''a.mid'' [''K2A'', ''A2K''])
             (backup_candidate ''a.mid'' 0) = Some (Unreadable ''an older backup'')"
    using seq [rule_format, OF h4] .
  have c0: "backup_candidate ''a.mid'' 0 = ''a.mid.bak''" by (simp add: backup_candidate_def)
  show ?thesis using h1 h2 h3 r k s c0 by simp
qed

section \<open>Properties of the batch loop\<close>

lemma batch_loop_accounts:
  "batch_loop out_dir mode overwrite suffix ps (fs, tot) = (fs', tot') \<Longrightarrow>
     total_files tot' + length (failures tot') = total_files tot + length (failures tot) + length ps"
proof (induction ps arbitrary: fs tot)
  case Nil
  then show ?case by simp
next
  case (Cons p ps)
  obtain fs1 r where bf: "batch_file fs out_dir mode overwrite suffix p = (fs1, r)"
    by (cases "batch_file fs out_dir mode overwrite suffix p")
  show ?case
  proof (cases r)
    case (Inl e)
    then show ?thesis using Cons.prems bf Cons.IH [of fs1 "tot\<lparr>failures := failures tot @ [path_name p @ '': '' @ error_text e]\<rparr>"]
      by simp
  next
    case (Inr v)
    obtain t c cl bak where v: "v = (t, c, cl, bak)" by (cases v)
    show ?thesis using Cons.prems bf Inr v
        Cons.IH [of fs1 "tot\<lparr>total_backups := (if bak \<noteq> None then total_backups tot + 1
                                       else total_backups tot),
                      total_files := total_files tot + 1,
                      total_events := total_events tot + t,
                      total_changed := total_changed tot + c,
                      total_clamped := total_clamped tot + cl\<rparr>"]
      by simp
  qed
qed

lemma batch_loop_append:
  "batch_loop out_dir mode overwrite suffix (qs @ ps) st =
     batch_loop out_dir mode overwrite suffix ps (batch_loop out_dir mode overwrite suffix qs st)"
proof (induction qs arbitrary: st)
  case Nil
  show ?case by simp
next
  case (Cons q qs)
  obtain fs tot where st: "st = (fs, tot)" by (cases st)
  show ?case using Cons.IH by (simp add: st split: prod.splits sum.splits)
qed

lemma batch_loop_failure:
  assumes "batch_file fs out_dir mode overwrite suffix p = (fs1, Inl e)"
  shows "batch_loop out_dir mode overwrite suffix (p # ps) (fs, tot) =
         batch_loop out_dir mode overwrite suffix ps
           (fs1, tot\<lparr>failures := failures tot @ [path_name p @ '': '' @ error_text e]\<rparr>)"
  using assms by simp

lemma example_run:
  "run_batch example_fs ''d'' [''d/a.mid'', ''d/bad.mid'', ''d/c.mid''] ''K2A'' False =
     (fmupd ''d/_converted/c_KoalaToAbleton.mid'' (MidiData [example_track_K2A])
        (fmupd ''d/_converted/a_KoalaToAbleton.mid'' (MidiData [example_track_K2A]) example_fs),
      \<lparr>total_files = 2, total_events = 4, total_changed = 4, total_clamped = 0,
        total_backups = 0, failures = [''bad.mid: not a MIDI file'']\<rparr>,
      ''Converted files: 2/3'' @ newline @ ''Total note events: 4'' @ newline @
      ''Total events changed: 4'' @ newline @ ''Total clamped after +36: 0'' @ newline @
      newline @ ''Some files failed:'' @ newline @ ''bad.mid: not a MIDI file'')"
  by (simp add: run_batch_def batch_file_def batch_summary_def mode_suffix_def error_text_def
      write_with_optional_overwrite_def example_fs_def example_track_K2A_def
      convert_defs note_defs path_defs Let_def)

text \<open>
  A batch without overwrite over files that are all unreadable: every file is recorded
  and the file system is left as it was.
\<close>

lemma batch_file_unreadable:
  assumes "fmlookup fs p = Some (Unreadable why)"
  shows "batch_file fs out_dir mode False suffix p = (fs, Inl (CodecError why))"
  using assms by (simp add: batch_file_def convert_midi_def)

lemma batch_loop_all_unreadable:
  "\<forall>p \<in> set ps. fmlookup fs p = Some (Unreadable why) \<Longrightarrow>
     batch_loop out_dir mode False suffix ps (fs, tot) =
       (fs, tot\<lparr>failures := failures tot @ map (\<lambda>p. path_name p @ '': '' @ why) ps\<rparr>)"
proof (induction ps arbitrary: tot)
  case Nil
  show ?case by simp
next
  case (Cons p ps)
  have bf: "batch_file fs out_dir mode False suffix p = (fs, Inl (CodecError why))"
    using Cons.prems by (intro batch_file_unreadable) simp
  have rest: "\<forall>q \<in> set ps. fmlookup fs q = Some (Unreadable why)" using Cons.prems by simp
  show ?case
    using bf Cons.IH [OF rest] by (simp add: error_text_def)
qed

lemma failing_fs_lookup:
  "\<forall>p \<in> set failing_files. fmlookup failing_fs p = Some (Unreadable ''not a MIDI file'')"
  by (simp add: failing_fs_def fmlookup_of_list map_of_map_restrict restrict_map_def)

lemma failing_len: "length failing_files = 11"
  by (simp add: failing_files_def)

lemma failing_names:
  "map (\<lambda>p. path_name p @ '': '' @ ''not a MIDI file'') failing_files = failing_entries"
  by (simp add: failing_files_def failing_entries_def path_name_def)

lemma str_nat_small: "str_nat 11 = ''11''" "str_nat 0 = ''0''"
  by (simp_all add: str_nat.simps digit_char_def)

lemma failing_summary:
  "batch_summary ''A2K'' False 11
     \<lparr>total_files = 0, total_events = 0, total_changed = 0, total_clamped = 0,
       total_backups = 0, failures = failing_entries\<rparr> =
    ''Converted files: 0/11'' @ newline @ ''Total note events: 0'' @ newline @
    ''Total events changed: 0'' @ newline @
    newline @ ''Some files failed:'' @ newline @
    ''01.mid: not a MIDI file'' @ newline @ ''02.mid: not a MIDI file'' @ newline @
    ''03.mid: not a MIDI file'' @ newline @ ''04.mid: not a MIDI file'' @ newline @
    ''05.mid: not a MIDI file'' @ newline @ ''06.mid: not a MIDI file'' @ newline @
    ''07.mid: not a MIDI file'' @ newline @ ''08.mid: not a MIDI file'' @ newline @
    ''09.mid: not a MIDI file'' @ newline @ ''10.mid: not a MIDI file'' @ newline @ ''...''"
  by (simp add: batch_summary_def str_nat_small failing_entries_def)

lemma failing_run:
  "run_batch failing_fs ''d'' failing_files ''A2K'' False =
   (failing_fs,
    \<lparr>total_files = 0, total_events = 0, total_changed = 0, total_clamped = 0,
      total_backups = 0, failures = failing_entries\<rparr>,
    ''Converted files: 0/11'' @ newline @ ''Total note events: 0'' @ newline @
    ''Total events changed: 0'' @ newline @
    newline @ ''Some files failed:'' @ newline @
    ''01.mid: not a MIDI file'' @ newline @ ''02.mid: not a MIDI file'' @ newline @
    ''03.mid: not a MIDI file'' @ newline @ ''04.mid: not a MIDI file'' @ newline @
    ''05.mid: not a MIDI file'' @ newline @ ''06.mid: not a MIDI file'' @ newline @
    ''07.mid: not a MIDI file'' @ newline @ ''08.mid: not a MIDI file'' @ newline @
    ''09.mid: not a MIDI file'' @ newline @ ''10.mid: not a MIDI file'' @ newline @ ''...'')"
proof -
  let ?init = "\<lparr>total_files = 0, total_events = 0, total_changed = 0, total_clamped = 0,
                 total_backups = 0, failures = []\<rparr>"
  have "batch_loop (''d'' @ ''/'' @ ''_converted'') ''A2K'' False (mode_suffix ''A2K'')
          failing_files (failing_fs, ?init) =
        (failing_fs, ?init\<lparr>failures := failures ?init @
            map (\<lambda>p. path_name p @ '': '' @ ''not a MIDI file'') failing_files\<rparr>)"
    using failing_fs_lookup by (rule batch_loop_all_unreadable)
  then have loop: "batch_loop (''d'' @ ''/'' @ ''_converted'') ''A2K'' False (mode_suffix ''A2K'')
          failing_files (failing_fs, ?init) =
        (failing_fs, \<lparr>total_files = 0, total_events = 0, total_changed = 0, total_clamped = 0,
          total_backups = 0, failures = failing_entries\<rparr>)"
    by (simp only: failing_names) simp
  show ?thesis
    unfolding run_batch_def Let_def loop failing_len prod.case failing_summary ..
qed

text \<open>
  C10. In a batch, every discovered file ends up either among the converted files or
  among the failures. A file whose conversion fails adds the entry
  \<open>name: message\<close> to the failures and the loop goes on with the remaining files,
  from the file system that file left; the loop over a list is the loop over its first
  part followed by the loop over the rest, whatever happened in the first part. The
  summary is the line of converted files out of discovered files, the counter lines,
  and, when there are failures, the heading and the first ten failure entries, one
  per line, followed by \<open>...\<close> exactly when there are more than ten; nothing else is
  in it.
\<close>

theorem batch_failure_isolation:
  assumes "run_batch fs folder midi_files mode overwrite = (fs', tot, msg)"
  shows "total_files tot + length (failures tot) = length midi_files \<and>
         (\<forall>out_dir suffix fs0 fs1 p ps tot0 e.
            batch_file fs0 out_dir mode overwrite suffix p = (fs1, Inl e) \<longrightarrow>
            batch_loop out_dir mode overwrite suffix (p # ps) (fs0, tot0) =
              batch_loop out_dir mode overwrite suffix ps
                (fs1, tot0\<lparr>failures := failures tot0 @ [path_name p @ '': '' @ error_text e]\<rparr>)) \<and>
         (\<forall>out_dir suffix qs ps st.
            batch_loop out_dir mode overwrite suffix (qs @ ps) st =
              batch_loop out_dir mode overwrite suffix ps
                (batch_loop out_dir mode overwrite suffix qs st)) \<and>
         msg =
            ''Converted files: '' @ str_nat (total_files tot) @ ''/'' @
              str_nat (length midi_files) @ newline @
            ''Total note events: '' @ str_nat (total_events tot) @ newline @
            ''Total events changed: '' @ str_nat (total_changed tot) @ newline @
            (if mode = ''K2A''
             then ''Total clamped after +36: '' @ str_nat (total_clamped tot) @ newline
             else []) @
            (if overwrite
             then ''Backups created: '' @ str_nat (total_backups tot) @ newline
             else []) @
            (if failures tot = [] then []
             else newline @ ''Some files failed:'' @ newline @
                  join newline (take 10 (failures tot)) @
                  (if 10 < length (failures tot) then newline @ ''...'' else []))"
proof -
  let ?init = "\<lparr>total_files = 0, total_events = 0, total_changed = 0,
                               total_clamped = 0, total_backups = 0, failures = []\<rparr>"
  have loop: "batch_loop (folder @ ''/'' @ ''_converted'') mode overwrite (mode_suffix mode)
                 midi_files (fs, ?init) = (fs', tot)"
    and m: "msg = batch_summary mode overwrite (length midi_files) tot"
    using assms by (auto simp add: run_batch_def Let_def split: prod.splits)
  have a: "total_files tot + length (failures tot) = length midi_files"
    using batch_loop_accounts [OF loop] by simp
  have b: "\<forall>out_dir suffix fs0 fs1 p ps tot0 e.
            batch_file fs0 out_dir mode overwrite suffix p = (fs1, Inl e) \<longrightarrow>
            batch_loop out_dir mode overwrite suffix (p # ps) (fs0, tot0) =
              batch_loop out_dir mode overwrite suffix ps
                (fs1, tot0\<lparr>failures := failures tot0 @ [path_name p @ '': '' @ error_text e]\<rparr>)"
    using batch_loop_failure by blast
  have c: "\<forall>out_dir suffix qs ps st.
            batch_loop out_dir mode overwrite suffix (qs @ ps) st =
              batch_loop out_dir mode overwrite suffix ps
                (batch_loop out_dir mode overwrite suffix qs st)"
    using batch_loop_append by blast
  have d: "msg =
            ''Converted files: '' @ str_nat (total_files tot) @ ''/'' @
              str_nat (length midi_files) @ newline @
            ''Total note events: '' @ str_nat (total_events tot) @ newline @
            ''Total events changed: '' @ str_nat (total_changed tot) @ newline @
            (if mode = ''K2A''
             then ''Total clamped after +36: '' @ str_nat (total_clamped tot) @ newline
             else []) @
            (if overwrite
             then ''Backups created: '' @ str_nat (total_backups tot) @ newline
             else []) @
            (if failures tot = [] then []
             else newline @ ''Some files failed:'' @ newline @
                  join newline (take 10 (failures tot)) @
                  (if 10 < length (failures tot) then newline @ ''...'' else []))"
    unfolding m by (simp add: batch_summary_def Let_def)
  show ?thesis by (intro conjI, fact a, fact b, fact c, fact d)
qed

text \<open>
  Two runs. In the first every one of eleven files fails: eleven entries are recorded,
  the summary lists the first ten and ends with \<open>...\<close>. In the second a file that
  fails stands between two that convert: it is recorded and the file after it is
  still converted.
\<close>

theorem batch_failure_isolation_witness:
  "run_batch failing_fs ''d'' failing_files ''A2K'' False =
     (failing_fs,
      \<lparr>total_files = 0, total_events = 0, total_changed = 0, total_clamped = 0,
        total_backups = 0, failures = failing_entries\<rparr>,
      ''Converted files: 0/11'' @ newline @ ''Total note events: 0'' @ newline @
      ''Total events changed: 0'' @ newline @
      newline @ ''Some files failed:'' @ newline @
      ''01.mid: not a MIDI file'' @ newline @ ''02.mid: not a MIDI file'' @ newline @
      ''03.mid: not a MIDI file'' @ newline @ ''04.mid: not a MIDI file'' @ newline @
      ''05.mid: not a MIDI file'' @ newline @ ''06.mid: not a MIDI file'' @ newline @
      ''07.mid: not a MIDI file'' @ newline @ ''08.mid: not a MIDI file'' @ newline @
      ''09.mid: not a MIDI file'' @ newline @ ''10.mid: not a MIDI file'' @ newline @ ''...'') \<and>
   length failing_entries = 11 \<and>
   0 + length failing_entries = length failing_files \<and>
   ''Converted files: 0/11'' @ newline @ ''Total note events: 0'' @ newline @
      ''Total events changed: 0'' @ newline @
      newline @ ''Some files failed:'' @ newline @
      ''01.mid: not a MIDI file'' @ newline @ ''02.mid: not a MIDI file'' @ newline @
      ''03.mid: not a MIDI file'' @ newline @ ''04.mid: not a MIDI file'' @ newline @
      ''05.mid: not a MIDI file'' @ newline @ ''06.mid: not a MIDI file'' @ newline @
      ''07.mid: not a MIDI file'' @ newline @ ''08.mid: not a MIDI file'' @ newline @
      ''09.mid: not a MIDI file'' @ newline @ ''10.mid: not a MIDI file'' @ newline @ ''...'' =
     ''Converted files: '' @ str_nat 0 @ ''/'' @ str_nat (length failing_files) @ newline @
     ''Total note events: '' @ str_nat 0 @ newline @
     ''Total events changed: '' @ str_nat 0 @ newline @
     newline @ ''Some files failed:'' @ newline @
     join newline (take 10 failing_entries) @ newline @ ''...'' \<and>
   run_batch example_fs ''d'' [''d/a.mid'', ''d/bad.mid'', ''d/c.mid''] ''K2A'' False =
     (fmupd ''d/_converted/c_KoalaToAbleton.mid'' (MidiData [example_track_K2A])
        (fmupd ''d/_converted/a_KoalaToAbleton.mid'' (MidiData [example_track_K2A]) example_fs),
      \<lparr>total_files = 2, total_events = 4, total_changed = 4, total_clamped = 0,
        total_backups = 0, failures = [''bad.mid: not a MIDI file'']\<rparr>,
      ''Converted files: 2/3'' @ newline @ ''Total note events: 4'' @ newline @
      ''Total events changed: 4'' @ newline @ ''Total clamped after +36: 0'' @ newline @
      newline @ ''Some files failed:'' @ newline @ ''bad.mid: not a MIDI file'') \<and>
   batch_file example_fs ''d/_converted'' ''K2A'' False ''_KoalaToAbleton'' ''d/bad.mid'' =
     (example_fs, Inl (CodecError ''not a MIDI file'')) \<and>
   batch_loop ''d/_converted'' ''K2A'' False ''_KoalaToAbleton'' [''d/bad.mid'', ''d/c.mid'']
       (example_fs, \<lparr>total_files = 0, total_events = 0, total_changed = 0, total_clamped = 0,
                      total_backups = 0, failures = []\<rparr>) =
     batch_loop ''d/_converted'' ''K2A'' False ''_KoalaToAbleton'' [''d/c.mid'']
       (example_fs, \<lparr>total_files = 0, total_events = 0, total_changed = 0, total_clamped = 0,
                      total_backups = 0, failures = [''bad.mid: not a MIDI file'']\<rparr>)"
proof -
  let ?init = "\<lparr>total_files = 0, total_events = 0, total_changed = 0, total_clamped = 0,
                      total_backups = 0, failures = []\<rparr>"
  let ?all = "\<lparr>total_files = 0, total_events = 0, total_changed = 0, total_clamped = 0,
        total_backups = 0, failures = failing_entries\<rparr>"
  note many = failing_run
  note run = example_run
  have len: "length failing_entries = 11" by (simp add: failing_entries_def)
  have acc: "total_files ?all + length (failures ?all) = length failing_files"
    using batch_failure_isolation [OF many, THEN conjunct1] .
  then have acc': "0 + length failing_entries = length failing_files" by simp
  have shown: "''Converted files: 0/11'' @ newline @ ''Total note events: 0'' @ newline @
      ''Total events changed: 0'' @ newline @
      newline @ ''Some files failed:'' @ newline @
      ''01.mid: not a MIDI file'' @ newline @ ''02.mid: not a MIDI file'' @ newline @
      ''03.mid: not a MIDI file'' @ newline @ ''04.mid: not a MIDI file'' @ newline @
      ''05.mid: not a MIDI file'' @ newline @ ''06.mid: not a MIDI file'' @ newline @
      ''07.mid: not a MIDI file'' @ newline @ ''08.mid: not a MIDI file'' @ newline @
      ''09.mid: not a MIDI file'' @ newline @ ''10.mid: not a MIDI file'' @ newline @ ''...'' =
     ''Converted files: '' @ str_nat 0 @ ''/'' @ str_nat (length failing_files) @ newline @
     ''Total note events: '' @ str_nat 0 @ newline @
     ''Total events changed: '' @ str_nat 0 @ newline @
     newline @ ''Some files failed:'' @ newline @
     join newline (take 10 failing_entries) @ newline @ ''...''"
    using batch_failure_isolation [OF many, THEN conjunct2, THEN conjunct2, THEN conjunct2] len
    by (simp add: failing_entries_def del: join.simps take_Cons_numeral)
  have bf: "batch_file example_fs ''d/_converted'' ''K2A'' False ''_KoalaToAbleton'' ''d/bad.mid'' =
     (example_fs, Inl (CodecError ''not a MIDI file''))"
    by (simp add: batch_file_def convert_midi_def example_fs_def)
  have iso: "\<forall>out_dir suffix fs0 fs1 p ps tot0 e.
            batch_file fs0 out_dir ''K2A'' False suffix p = (fs1, Inl e) \<longrightarrow>
            batch_loop out_dir ''K2A'' False suffix (p # ps) (fs0, tot0) =
              batch_loop out_dir ''K2A'' False suffix ps
                (fs1, tot0\<lparr>failures := failures tot0 @ [path_name p @ '': '' @ error_text e]\<rparr>)"
    using batch_failure_isolation [OF run, THEN conjunct2, THEN conjunct1] .
  have "batch_loop ''d/_converted'' ''K2A'' False ''_KoalaToAbleton'' (''d/bad.mid'' # [''d/c.mid''])
       (example_fs, ?init) =
     batch_loop ''d/_converted'' ''K2A'' False ''_KoalaToAbleton'' [''d/c.mid'']
       (example_fs, ?init\<lparr>failures := failures ?init @
            [path_name ''d/bad.mid'' @ '': '' @ error_text (CodecError ''not a MIDI file'')]\<rparr>)"
    using iso [rule_format, OF bf] .
  moreover have "path_name ''d/bad.mid'' @ '': '' @ error_text (CodecError ''not a MIDI file'') =
      ''bad.mid: not a MIDI file''"
    by (simp add: path_name_def error_text_def)
  ultimately have lp: "batch_loop ''d/_converted'' ''K2A'' False ''_KoalaToAbleton'' [''d/bad.mid'', ''d/c.mid'']
       (example_fs, ?init) =
     batch_loop ''d/_converted'' ''K2A'' False ''_KoalaToAbleton'' [''d/c.mid'']
       (example_fs, \<lparr>total_files = 0, total_events = 0, total_changed = 0, total_clamped = 0,
                      total_backups = 0, failures = [''bad.mid: not a MIDI file'']\<rparr>)"
    by (simp del: batch_loop.simps)
  show ?thesis by (intro conjI, fact many, fact len, fact acc', fact shown, fact run, fact bf, fact lp)
qed

end
